theory Spec2Isabelle
  imports Main "HOL-Library.Word"
begin

unbundle bit_operations_syntax

section \<open>Machine model\<close>

text \<open>
  The allocator of \<^verbatim>\<open>myMalloc.c\<close> works on raw memory: block headers live inside the
  region obtained from \<^verbatim>\<open>sbrk\<close>, the list links of a free block overlay its payload, and
  the sentinels of the free lists are a global array. The model keeps one flat store of
  8-byte cells indexed by byte address, so that every aliasing of the C program is an
  aliasing of the model. \<^verbatim>\<open>size_t\<close> and pointers are 64-bit words, \<^verbatim>\<open>int\<close> is a 32-bit word.
\<close>

type_synonym addr = "64 word"
type_synonym size_t = "64 word"
type_synonym cint = "32 word"

record process =
  mem :: "addr \<Rightarrow> 64 word"        \<comment> \<open>the store: one 8-byte cell per aligned address\<close>
  heap_lo :: addr                 \<comment> \<open>the program break when the process started\<close>
  brk :: addr                     \<comment> \<open>the current program break\<close>
  lastFencePost :: addr           \<comment> \<open>global \<^verbatim>\<open>header * lastFencePost\<close>\<close>
  base :: addr                    \<comment> \<open>global \<^verbatim>\<open>void * base\<close>\<close>
  osChunkList :: "nat \<Rightarrow> addr"     \<comment> \<open>global \<^verbatim>\<open>header * osChunkList[MAX_OS_CHUNKS]\<close>\<close>
  numOsChunks :: nat              \<comment> \<open>global \<^verbatim>\<open>size_t numOsChunks\<close>\<close>
  stdout :: string                \<comment> \<open>what has been written to standard output\<close>
  stderr :: string                \<comment> \<open>what has been written to standard error\<close>

text \<open>
  A run of a C function either returns a value and a new process state, or ends the
  process: by an access to memory that is not mapped, by \<^verbatim>\<open>exit\<close> inside the failed
  assertion, or (in the model only) because a loop was given too little fuel.
\<close>

datatype fault = Segfault addr | Exited nat process | OutOfFuel

type_synonym 'a prog = "process \<Rightarrow> fault + 'a \<times> process"

definition ret :: "'a \<Rightarrow> 'a prog" where
  "ret x s = Inr (x, s)"

definition bind :: "'a prog \<Rightarrow> ('a \<Rightarrow> 'b prog) \<Rightarrow> 'b prog" where
  "bind m f s = (case m s of Inl e \<Rightarrow> Inl e | Inr r \<Rightarrow> f (fst r) (snd r))"

definition seq :: "unit prog \<Rightarrow> 'b prog \<Rightarrow> 'b prog" where
  "seq m k = bind m (\<lambda>_. k)"

definition crash :: "fault \<Rightarrow> 'a prog" where
  "crash e s = Inl e"

subsection \<open>Constants of \<^verbatim>\<open>myMalloc.h\<close>\<close>

text \<open>
  Modelled from the spec: the header file \<^verbatim>\<open>myMalloc.h\<close> is not among the sources. The
  spec gives \<open>H = 16\<close> for \<^verbatim>\<open>ALLOC_HEADER_SIZE\<close> (so \<^verbatim>\<open>sizeof(header)\<close> is \<open>H + 16 = 32\<close>),
  4096 for \<^verbatim>\<open>ARENA_SIZE\<close> and 59 for \<^verbatim>\<open>N_LISTS\<close>. \<^verbatim>\<open>ALLOC_HEADER_SIZE\<close> and \<^verbatim>\<open>sizeof\<close>
  have type \<^verbatim>\<open>size_t\<close>, \<^verbatim>\<open>N_LISTS\<close> has type \<^verbatim>\<open>int\<close>. The spec gives no value for
  \<^verbatim>\<open>MAX_OS_CHUNKS\<close>: the functions that use it take it as a parameter.
  The states are the enumerators the code compares with: 0, 1 and 2.
\<close>

abbreviation ALLOC_HEADER_SIZE :: size_t where "ALLOC_HEADER_SIZE \<equiv> 16"
abbreviation sizeof_header :: size_t where "sizeof_header \<equiv> 32"
abbreviation ARENA_SIZE :: size_t where "ARENA_SIZE \<equiv> 4096"
abbreviation N_LISTS :: int where "N_LISTS \<equiv> 59"

abbreviation UNALLOCATED :: "64 word" where "UNALLOCATED \<equiv> 0"
abbreviation ALLOCATED :: "64 word" where "ALLOCATED \<equiv> 1"
abbreviation FENCEPOST :: "64 word" where "FENCEPOST \<equiv> 2"

abbreviation NULL :: addr where "NULL \<equiv> 0"

subsection \<open>Memory\<close>

text \<open>
  The global array \<^verbatim>\<open>header freelistSentinels[N_LISTS]\<close> is placed at address \<open>0x1000\<close>;
  \<open>freelistSentinels i\<close> is \<^verbatim>\<open>&freelistSentinels[i]\<close>. Mapped memory is that array and
  the bytes between the initial and the current program break. Accesses are to aligned
  8-byte cells; anything else ends the process.
\<close>

definition freelistSentinels :: "int \<Rightarrow> addr" where
  "freelistSentinels i = 0x1000 + 32 * word_of_int i"

definition mapped :: "process \<Rightarrow> addr \<Rightarrow> bool" where
  "mapped s a \<longleftrightarrow>
     unat a mod 8 = 0 \<and>
     ((0x1000 \<le> unat a \<and> unat a + 8 \<le> 0x1000 + 32 * 59) \<or>
      (unat (heap_lo s) \<le> unat a \<and> unat a + 8 \<le> unat (brk s)))"

definition load :: "addr \<Rightarrow> (64 word) prog" where
  "load a s = (if mapped s a then Inr (mem s a, s) else Inl (Segfault a))"

definition store :: "addr \<Rightarrow> 64 word \<Rightarrow> unit prog" where
  "store a v s = (if mapped s a then Inr ((), s\<lparr>mem := (mem s)(a := v)\<rparr>) else Inl (Segfault a))"

text \<open>
  \<^verbatim>\<open>sbrk(n)\<close> returns the old break and moves it by \<open>n\<close>; when the address space is
  exhausted it returns \<^verbatim>\<open>(void *) -1\<close> and moves nothing. \<open>os_sbrk\<close> is the same call made
  by some other part of the process, which is how two chunks of the allocator come to
  be not adjacent.
\<close>

definition sbrk :: "size_t \<Rightarrow> addr prog" where
  "sbrk n s = (if unat (brk s) + unat n < 2 ^ 64
               then Inr (brk s, s\<lparr>brk := brk s + n\<rparr>)
               else Inr (- 1, s))"

definition os_sbrk :: "size_t \<Rightarrow> unit prog" where
  "os_sbrk n = bind (sbrk n) (\<lambda>_. ret ())"

subsection \<open>Header fields\<close>

text \<open>
  Modelled from the spec: \<^verbatim>\<open>struct header\<close> and its accessors are declared in
  \<^verbatim>\<open>myMalloc.h\<close>, which is not among the sources. After the spec, a header is the word
  holding the size with the state in its low 3 bits, then \<^verbatim>\<open>left_size\<close>, then (overlaying
  the payload, at \<open>H\<close> and \<open>H + 8\<close>) the links \<^verbatim>\<open>next\<close> and \<^verbatim>\<open>prev\<close>; the setters of size
  and state preserve the other field.
\<close>

definition get_block_size :: "addr \<Rightarrow> size_t prog" where
  "get_block_size h = bind (load h) (\<lambda>w. ret (w AND NOT 7))"

definition get_block_state :: "addr \<Rightarrow> (64 word) prog" where
  "get_block_state h = bind (load h) (\<lambda>w. ret (w AND 7))"

definition set_block_size :: "addr \<Rightarrow> size_t \<Rightarrow> unit prog" where
  "set_block_size h sz = bind (load h) (\<lambda>w. store h ((sz AND NOT 7) OR (w AND 7)))"

definition set_block_state :: "addr \<Rightarrow> 64 word \<Rightarrow> unit prog" where
  "set_block_state h st = bind (load h) (\<lambda>w. store h ((w AND NOT 7) OR (st AND 7)))"

definition get_left_size :: "addr \<Rightarrow> size_t prog" where
  "get_left_size h = load (h + 8)"

definition set_left_size :: "addr \<Rightarrow> size_t \<Rightarrow> unit prog" where
  "set_left_size h v = store (h + 8) v"

definition get_next :: "addr \<Rightarrow> addr prog" where
  "get_next h = load (h + 16)"

definition set_next :: "addr \<Rightarrow> addr \<Rightarrow> unit prog" where
  "set_next h v = store (h + 16) v"

definition get_prev :: "addr \<Rightarrow> addr prog" where
  "get_prev h = load (h + 24)"

definition set_prev :: "addr \<Rightarrow> addr \<Rightarrow> unit prog" where
  "set_prev h v = store (h + 24) v"

section \<open>Boundary-tag primitives and chunk acquisition\<close>

definition get_header_from_offset :: "addr \<Rightarrow> 64 word \<Rightarrow> addr" where
  "get_header_from_offset ptr off = ptr + off"

definition get_right_header :: "addr \<Rightarrow> addr prog" where
  "get_right_header h = bind (get_block_size h) (\<lambda>sz. ret (get_header_from_offset h sz))"

definition get_left_header :: "addr \<Rightarrow> addr prog" where
  "get_left_header h = bind (get_left_size h) (\<lambda>l. ret (get_header_from_offset h (- l)))"

definition initialize_fencepost :: "addr \<Rightarrow> size_t \<Rightarrow> unit prog" where
  "initialize_fencepost fp left_size =
     seq (set_block_state fp FENCEPOST)
    (seq (set_block_size fp ALLOC_HEADER_SIZE)
         (set_left_size fp left_size))"

definition insert_os_chunk :: "nat \<Rightarrow> addr \<Rightarrow> unit prog" where
  "insert_os_chunk MAX_OS_CHUNKS hdr s =
     (if numOsChunks s < MAX_OS_CHUNKS
      then Inr ((), s\<lparr>osChunkList := (osChunkList s)(numOsChunks s := hdr),
                      numOsChunks := numOsChunks s + 1\<rparr>)
      else Inr ((), s))"

definition insert_fenceposts :: "addr \<Rightarrow> size_t \<Rightarrow> unit prog" where
  "insert_fenceposts raw_mem sz =
     (let leftFencePost = raw_mem in
      seq (initialize_fencepost leftFencePost ALLOC_HEADER_SIZE)
     (let rightFencePost = get_header_from_offset raw_mem (sz - ALLOC_HEADER_SIZE) in
      initialize_fencepost rightFencePost (sz - 2 * ALLOC_HEADER_SIZE)))"

definition allocate_chunk :: "size_t \<Rightarrow> addr prog" where
  "allocate_chunk sz =
     bind (sbrk sz) (\<lambda>mem.
     seq (insert_fenceposts mem sz)
    (let hdr = mem + ALLOC_HEADER_SIZE in
     seq (set_block_state hdr UNALLOCATED)
    (seq (set_block_size hdr (sz - 2 * ALLOC_HEADER_SIZE))
    (seq (set_left_size hdr ALLOC_HEADER_SIZE)
         (ret hdr)))))"

section \<open>Initialisation\<close>

text \<open>
  The loop of \<^verbatim>\<open>init\<close> that makes every sentinel an empty circular list. The calls of
  \<^verbatim>\<open>pthread_mutex_init\<close> and, under \<^verbatim>\<open>DEBUG\<close>, of \<^verbatim>\<open>setvbuf\<close> touch nothing of the model.
\<close>

function init_sentinels :: "int \<Rightarrow> unit prog" where
  "init_sentinels i =
     (if i < N_LISTS
      then (let freelist = freelistSentinels i in
            seq (set_next freelist freelist)
           (seq (set_prev freelist freelist)
                (init_sentinels (i + 1))))
      else ret ())"
  by pat_completeness auto
termination
  by (relation "measure (\<lambda>i. nat (N_LISTS - i))") auto

declare init_sentinels.simps [simp del]

definition init :: "nat \<Rightarrow> unit prog" where
  "init MAX_OS_CHUNKS =
     bind (allocate_chunk ARENA_SIZE) (\<lambda>block.
     (let prevFencePost = get_header_from_offset block (- ALLOC_HEADER_SIZE) in
      seq (insert_os_chunk MAX_OS_CHUNKS prevFencePost)
     (bind (get_block_size block) (\<lambda>bsz.
      seq (\<lambda>s. Inr ((), s\<lparr>lastFencePost := get_header_from_offset block bsz\<rparr>))
     (seq (\<lambda>s. Inr ((), s\<lparr>base := block - ALLOC_HEADER_SIZE\<rparr>))
     (seq (init_sentinels 0)
     (let freelist = freelistSentinels (N_LISTS - 1) in
      seq (set_next freelist block)
     (seq (set_prev freelist block)
     (seq (set_next block freelist)
          (set_prev block freelist))))))))))"

text \<open>
  The process before \<^verbatim>\<open>init\<close> runs: globals are zero, nothing has been obtained from the
  operating system, and the program break is at \<open>b\<close>.
\<close>

definition boot :: "addr \<Rightarrow> process" where
  "boot b = \<lparr>mem = (\<lambda>_. 0), heap_lo = b, brk = b, lastFencePost = NULL, base = NULL,
             osChunkList = (\<lambda>_. NULL), numOsChunks = 0, stdout = [], stderr = []\<rparr>"

section \<open>Allocation\<close>

text \<open>
  Conversions as C makes them on this platform: assigning a \<^verbatim>\<open>size_t\<close> to an \<^verbatim>\<open>int\<close> keeps
  the low 32 bits (\<open>ucast\<close>); an \<^verbatim>\<open>int\<close> that meets a \<^verbatim>\<open>size_t\<close> in an expression is
  sign-extended (\<open>scast\<close>) and the arithmetic is unsigned 64-bit. \<open>c_rem\<close> is the
  remainder of C's \<^verbatim>\<open>%\<close> on \<^verbatim>\<open>int\<close>, which truncates towards zero.
\<close>

definition c_rem :: "cint \<Rightarrow> int \<Rightarrow> int" where
  "c_rem a b = sgn (sint a) * (\<bar>sint a\<bar> mod \<bar>b\<bar>)"

text \<open>
  Lines 230 to 236: the walk through the catch-all list, from \<open>hdr\<close>, to the first block
  of at least \<open>size\<close> bytes; \<open>NULL\<close> when the walk comes back to the sentinel.
\<close>

fun find_fit :: "nat \<Rightarrow> addr \<Rightarrow> cint \<Rightarrow> addr \<Rightarrow> addr prog" where
  "find_fit 0 sentinel sz hdr = crash OutOfFuel"
| "find_fit (Suc fuel) sentinel sz hdr =
     bind (get_block_size hdr) (\<lambda>bsz.
     if bsz < scast sz
     then bind (get_next hdr) (\<lambda>hdr.
          if hdr = sentinel then ret NULL
          else find_fit fuel sentinel sz hdr)
     else ret hdr)"

text \<open>
  Lines 225 to 249: the loop over the size classes from \<open>i\<close> on. It returns \<open>hdr\<close>,
  \<open>oldPrev\<close> and \<open>oldNext\<close>. The statements that unlink \<open>hdr\<close> follow the walk of the
  catch-all list whatever the walk returned, as in the source.
\<close>

function search_lists :: "nat \<Rightarrow> cint \<Rightarrow> int \<Rightarrow> (addr \<times> addr \<times> addr) prog" where
  "search_lists fuel sz i =
     (if i < N_LISTS
      then bind (get_prev (freelistSentinels i)) (\<lambda>p.
           if p \<noteq> freelistSentinels i
           then bind (get_next (freelistSentinels i)) (\<lambda>hdr.
                bind (if i = N_LISTS - 1
                      then find_fit fuel (freelistSentinels i) sz hdr
                      else ret hdr) (\<lambda>hdr.
                \<comment> \<open>\<^verbatim>\<open>hdr->next->prev = hdr->prev;\<close>\<close>
                bind (get_next hdr) (\<lambda>n.
                bind (get_prev hdr) (\<lambda>p.
                seq (set_prev n p)
                \<comment> \<open>\<^verbatim>\<open>hdr->prev->next = hdr->next;\<close>\<close>
               (bind (get_prev hdr) (\<lambda>p.
                bind (get_next hdr) (\<lambda>n.
                seq (set_next p n)
               (bind (get_prev hdr) (\<lambda>oldPrev.
                bind (get_next hdr) (\<lambda>oldNext.
                seq (set_prev hdr NULL)
               (seq (set_next hdr NULL)
                    (ret (hdr, oldPrev, oldNext)))))))))))))
           else search_lists fuel sz (i + 1))
      else ret (NULL, NULL, NULL))"
  by pat_completeness auto
termination
  by (relation "measure (\<lambda>(fuel, sz, i). nat (N_LISTS - i))") auto

declare search_lists.simps [simp del]

text \<open>
  Lines 254 to 284: a new chunk is obtained, merged with the previous chunk when the two
  are adjacent and registered otherwise, and put at the head of the catch-all list.
\<close>

definition grow :: "unit prog" where
  "grow =
     bind (allocate_chunk ARENA_SIZE) (\<lambda>hdr.
     bind (get_right_header hdr) (\<lambda>rightPost.
     bind (get_left_header hdr) (\<lambda>leftPost.
     bind (\<lambda>s. Inr (lastFencePost s, s)) (\<lambda>lfp.
     bind (if leftPost - ALLOC_HEADER_SIZE = lfp
           then (let temp = lfp in
                 bind (get_left_header temp) (\<lambda>lastBlock.
                 bind (get_block_state lastBlock) (\<lambda>st.
                 bind (if st = UNALLOCATED
                       then bind (get_block_size lastBlock) (\<lambda>lsz.
                            bind (get_block_size hdr) (\<lambda>hsz.
                            seq (set_block_size lastBlock (lsz + 2 * ALLOC_HEADER_SIZE + hsz))
                           (bind (get_next lastBlock) (\<lambda>n.
                            bind (get_prev lastBlock) (\<lambda>p.
                            seq (set_prev n p)
                           (bind (get_prev lastBlock) (\<lambda>p.
                            bind (get_next lastBlock) (\<lambda>n.
                            seq (set_next p n)
                                (ret lastBlock)))))))))
                       else seq (set_block_state temp UNALLOCATED)
                           (bind (get_block_size hdr) (\<lambda>hsz.
                            seq (set_block_size temp (hsz + 2 * ALLOC_HEADER_SIZE))
                                (ret temp)))) (\<lambda>hdr.
                 bind (get_block_size hdr) (\<lambda>hsz.
                 seq (set_left_size rightPost hsz)
                     (ret hdr))))))
           else seq (\<lambda>s. Inr ((), s\<lparr>osChunkList := (osChunkList s)(numOsChunks s := leftPost),
                                     numOsChunks := numOsChunks s + 1\<rparr>))
                    (ret hdr)) (\<lambda>hdr.
     (let sentinel = freelistSentinels (N_LISTS - 1) in
      bind (get_next sentinel) (\<lambda>n.
      seq (set_prev n hdr)
     (bind (get_next sentinel) (\<lambda>n.
      seq (set_next hdr n)
     (seq (set_next sentinel hdr)
     (seq (set_prev hdr sentinel)
          (\<lambda>s. Inr ((), s\<lparr>lastFencePost := rightPost\<rparr>)))))))))))))"

text \<open>
  Lines 289 to 322: the chosen block \<open>hdr\<close> is split when the rest is at least
  \<^verbatim>\<open>sizeof(header)\<close> bytes, the rest goes back to a free list, and the block is marked
  allocated. The result is the pointer handed to the caller.
\<close>

definition take_block :: "cint \<Rightarrow> addr \<Rightarrow> addr \<Rightarrow> addr \<Rightarrow> addr prog" where
  "take_block sz hdr oldPrev oldNext =
     bind (get_block_size hdr) (\<lambda>bsz.
     (let extra = (ucast (bsz - scast sz) :: cint) in
      bind (if sizeof_header \<le> scast extra
            then (let tempHdr = hdr; hdr = hdr + scast extra in
                  seq (set_block_size tempHdr (scast extra))
                 (seq (set_block_state tempHdr UNALLOCATED)
                 (let loc = (ucast ((scast extra - ALLOC_HEADER_SIZE) div 8 - 1) :: cint) in
                  seq (if N_LISTS \<le> sint loc
                       then seq (set_next tempHdr oldNext)
                           (seq (set_prev tempHdr oldPrev)
                           (seq (set_prev oldNext tempHdr)
                                (set_next oldPrev tempHdr)))
                       else bind (get_next (freelistSentinels (sint loc))) (\<lambda>n.
                            seq (set_next tempHdr n)
                           (seq (set_next (freelistSentinels (sint loc)) tempHdr)
                           (bind (get_next tempHdr) (\<lambda>n.
                            seq (set_prev n tempHdr)
                                (set_prev tempHdr (freelistSentinels (sint loc))))))))
                 (seq (set_block_size hdr (scast sz))
                 (seq (set_left_size hdr (scast extra))
                      (ret hdr))))))
            else ret hdr) (\<lambda>hdr.
      bind (get_right_header hdr) (\<lambda>right.
      bind (get_block_size hdr) (\<lambda>hsz.
      seq (set_left_size right hsz)
     (seq (set_block_state hdr ALLOCATED)
          (ret (hdr + ALLOC_HEADER_SIZE))))))))"

text \<open>
  \<^verbatim>\<open>allocate_object\<close>. The recursive call of line 286 costs one unit of fuel, and the walk
  through the catch-all list gets what is left.
\<close>

fun allocate_object :: "nat \<Rightarrow> size_t \<Rightarrow> addr prog" where
  "allocate_object 0 raw_size = crash OutOfFuel"
| "allocate_object (Suc fuel) raw_size =
     (if raw_size \<le> 0 then ret NULL
      else (let raw_size = (if raw_size \<le> 8 then 16 else raw_size);
                sz = (ucast raw_size :: cint);
                sz = (if c_rem sz 8 \<noteq> 0
                      then ucast ((scast sz :: size_t) + (8 - raw_size mod 8))
                      else sz);
                sz = (ucast ((scast sz :: size_t) + ALLOC_HEADER_SIZE) :: cint);
                smallest = (ucast (((scast sz :: size_t) - ALLOC_HEADER_SIZE) div 8 - 1) :: cint);
                smallest = (if N_LISTS \<le> sint smallest then N_LISTS - 1 else sint smallest)
            in bind (search_lists fuel sz smallest) (\<lambda>(hdr, oldPrev, oldNext).
               if hdr = NULL
               then seq grow (allocate_object fuel raw_size)
               else take_block sz hdr oldPrev oldNext)))"

declare find_fit.simps [simp del] allocate_object.simps [simp del]

section \<open>Deallocation\<close>

text \<open>
  The file defines its own \<^verbatim>\<open>assert\<close> (under \<^verbatim>\<open>TEST_ASSERT\<close>): a failed assertion writes
  \<^verbatim>\<open>"Assertion Failed!\n"\<close> to file descriptor 2 and leaves with \<^verbatim>\<open>exit(1)\<close>. \<^verbatim>\<open>printf\<close> writes
  to standard output.
\<close>

definition printf :: "string \<Rightarrow> unit prog" where
  "printf msg s = Inr ((), s\<lparr>stdout := stdout s @ msg\<rparr>)"

definition fprintf_stderr :: "string \<Rightarrow> unit prog" where
  "fprintf_stderr msg s = Inr ((), s\<lparr>stderr := stderr s @ msg\<rparr>)"

definition assert :: "bool \<Rightarrow> unit prog" where
  "assert e s =
     (if \<not> e
      then Inl (Exited 1 (s\<lparr>stderr := stderr s @ ''Assertion Failed!'' @ [CHR 0x0A]\<rparr>))
      else Inr ((), s))"

definition ptr_to_header :: "addr \<Rightarrow> addr" where
  "ptr_to_header p = p - ALLOC_HEADER_SIZE"

text \<open>
  Lines 369 to 382: the block to the right is free. The result is \<open>coalR\<close>.
\<close>

definition coalesce_right :: "addr \<Rightarrow> addr \<Rightarrow> bool prog" where
  "coalesce_right hdr right =
     bind (get_block_size hdr) (\<lambda>hsz.
     bind (get_block_size right) (\<lambda>rsz.
     seq (set_block_size hdr (hsz + rsz))
    (bind (get_next right) (\<lambda>n.
     bind (get_prev right) (\<lambda>p.
     seq (set_prev n p)
    (bind (get_prev right) (\<lambda>p.
     bind (get_next right) (\<lambda>n.
     seq (set_next p n)
    (bind (get_right_header right) (\<lambda>temp.
     bind (get_block_size hdr) (\<lambda>hsz.
     seq (set_left_size temp hsz)
    (bind (get_block_size right) (\<lambda>rsz.
     ret ((word_of_int (N_LISTS - 1) * 8) + ALLOC_HEADER_SIZE < rsz))))))))))))))"

text \<open>
  Lines 385 to 400: the block to the left is free. The result is \<open>coalL\<close> with the new
  values of the variables \<open>hdr\<close> and \<open>right\<close>.
\<close>

definition coalesce_left :: "addr \<Rightarrow> addr \<Rightarrow> (bool \<times> addr \<times> addr) prog" where
  "coalesce_left hdr left =
     bind (get_next left) (\<lambda>n.
     bind (get_prev left) (\<lambda>p.
     seq (set_prev n p)
    (bind (get_prev left) (\<lambda>p.
     bind (get_next left) (\<lambda>n.
     seq (set_next p n)
    (bind (get_block_size left) (\<lambda>lsz.
     (let coalL = ((word_of_int (N_LISTS - 1) * 8) + ALLOC_HEADER_SIZE < lsz) in
      bind (get_block_size left) (\<lambda>lsz.
      bind (get_block_size hdr) (\<lambda>hsz.
      seq (set_block_size left (lsz + hsz))
     (let hdr = left in
      bind (get_right_header hdr) (\<lambda>right.
      bind (get_block_size hdr) (\<lambda>hsz.
      seq (set_left_size right hsz)
          (ret (coalL, hdr, right)))))))))))))))"

text \<open>
  Lines 403 to 424: the block \<open>hdr\<close> goes into a free list: in the place of \<open>left\<close>, in
  the place of \<open>right\<close>, or at the head of the list of its size class.
\<close>

definition insert_free :: "bool \<Rightarrow> bool \<Rightarrow> addr \<Rightarrow> addr \<Rightarrow> addr \<Rightarrow> unit prog" where
  "insert_free coalL coalR hdr left right =
     (if coalL
      then bind (get_next left) (\<lambda>n.
           seq (set_prev n hdr)
          (bind (get_prev left) (\<lambda>p.
           seq (set_next p hdr)
          (bind (get_next left) (\<lambda>n.
           seq (set_next hdr n)
          (bind (get_prev left) (\<lambda>p.
               (set_prev hdr p))))))))
      else if coalR
      then bind (get_next right) (\<lambda>n.
           seq (set_prev n hdr)
          (bind (get_prev right) (\<lambda>p.
           seq (set_next p hdr)
          (bind (get_next right) (\<lambda>n.
           seq (set_next hdr n)
          (bind (get_prev right) (\<lambda>p.
               (set_prev hdr p))))))))
      else bind (get_block_size hdr) (\<lambda>hsz.
           (let listLoc = (ucast ((hsz - ALLOC_HEADER_SIZE) div 8 - 1) :: cint);
                listLoc = (if N_LISTS \<le> sint listLoc then N_LISTS - 1 else sint listLoc)
            in seq (set_prev hdr (freelistSentinels listLoc))
              (bind (get_next (freelistSentinels listLoc)) (\<lambda>n.
               seq (set_next hdr n)
              (seq (set_next (freelistSentinels listLoc) hdr)
              (bind (get_next hdr) (\<lambda>n.
                   (set_prev n hdr)))))))))"

definition deallocate_object :: "addr \<Rightarrow> unit prog" where
  "deallocate_object p =
     (if p = NULL then ret ()
      else (let hdr = ptr_to_header p in
            bind (get_block_state hdr) (\<lambda>st.
            if st = UNALLOCATED
            then seq (printf (''Double Free Detected'' @ [CHR 0x0A]))
                (seq (assert False)
                     (ret ()))
            else bind (get_block_state hdr) (\<lambda>st.
            if st = FENCEPOST then ret ()
            else seq (set_block_state hdr UNALLOCATED)
                (bind (get_right_header hdr) (\<lambda>right.
                 bind (get_left_header hdr) (\<lambda>left.
                 bind (get_block_state right) (\<lambda>rst.
                 bind (if rst = UNALLOCATED then coalesce_right hdr right
                       else ret False) (\<lambda>coalR.
                 bind (get_block_state left) (\<lambda>lst.
                 bind (if lst = UNALLOCATED then coalesce_left hdr left
                       else ret (False, hdr, right)) (\<lambda>(coalL, hdr, right).
                 insert_free coalL coalR hdr left right)))))))))))"

section \<open>The verifier\<close>

text \<open>
  \<^verbatim>\<open>print_object\<close> and \<^verbatim>\<open>print_sublist\<close> are declared in \<^verbatim>\<open>printing.h\<close>, which is not among
  the sources: what they print is left out, the evaluation of their arguments is kept.

  The inner loop of \<^verbatim>\<open>detect_cycles\<close>; \<open>Some slow\<close> is the \<^verbatim>\<open>return slow\<close> inside the loop.
\<close>

fun floyd :: "nat \<Rightarrow> addr \<Rightarrow> addr \<Rightarrow> addr \<Rightarrow> (addr option) prog" where
  "floyd 0 freelist slow fast = crash OutOfFuel"
| "floyd (Suc fuel) freelist slow fast =
     (if fast \<noteq> freelist
      then (if slow = fast then ret (Some slow)
            else bind (get_next slow) (\<lambda>slow.
                 bind (get_next fast) (\<lambda>fn.
                 bind (get_next fn) (\<lambda>fast.
                 floyd fuel freelist slow fast))))
      else ret None)"

function detect_cycles_from :: "nat \<Rightarrow> int \<Rightarrow> addr prog" where
  "detect_cycles_from fuel i =
     (if i < N_LISTS
      then (let freelist = freelistSentinels i in
            bind (get_next freelist) (\<lambda>slow.
            bind (get_next freelist) (\<lambda>fn.
            bind (get_next fn) (\<lambda>fast.
            bind (floyd fuel freelist slow fast) (\<lambda>r.
            case r of Some slow \<Rightarrow> ret slow
                    | None \<Rightarrow> detect_cycles_from fuel (i + 1))))))
      else ret NULL)"
  by pat_completeness auto
termination
  by (relation "measure (\<lambda>(fuel, i). nat (N_LISTS - i))") auto

definition detect_cycles :: "nat \<Rightarrow> addr prog" where
  "detect_cycles fuel = detect_cycles_from fuel 0"

text \<open>The inner loop of \<^verbatim>\<open>verify_pointers\<close>; the \<^verbatim>\<open>||\<close> evaluates its right side only when
  the left side is false.\<close>

fun check_links :: "nat \<Rightarrow> addr \<Rightarrow> addr \<Rightarrow> (addr option) prog" where
  "check_links 0 freelist cur = crash OutOfFuel"
| "check_links (Suc fuel) freelist cur =
     (if cur \<noteq> freelist
      then bind (get_next cur) (\<lambda>n.
           bind (get_prev n) (\<lambda>np.
           bind (if np \<noteq> cur then ret True
                 else bind (get_prev cur) (\<lambda>p.
                      bind (get_next p) (\<lambda>pn.
                      ret (pn \<noteq> cur)))) (\<lambda>bad.
           if bad then ret (Some cur)
           else bind (get_next cur) (\<lambda>cur.
                check_links fuel freelist cur))))
      else ret None)"

function verify_pointers_from :: "nat \<Rightarrow> int \<Rightarrow> addr prog" where
  "verify_pointers_from fuel i =
     (if i < N_LISTS
      then (let freelist = freelistSentinels i in
            bind (get_next freelist) (\<lambda>cur.
            bind (check_links fuel freelist cur) (\<lambda>r.
            case r of Some cur \<Rightarrow> ret cur
                    | None \<Rightarrow> verify_pointers_from fuel (i + 1))))
      else ret NULL)"
  by pat_completeness auto
termination
  by (relation "measure (\<lambda>(fuel, i). nat (N_LISTS - i))") auto

definition verify_pointers :: "nat \<Rightarrow> addr prog" where
  "verify_pointers fuel = verify_pointers_from fuel 0"

definition verify_freelist :: "nat \<Rightarrow> bool prog" where
  "verify_freelist fuel =
     bind (detect_cycles fuel) (\<lambda>cycle.
     if cycle \<noteq> NULL
     then seq (fprintf_stderr (''Cycle Detected'' @ [CHR 0x0A]))
         (bind (get_next cycle) (\<lambda>_.
          ret False))
     else bind (verify_pointers fuel) (\<lambda>invalid.
          if invalid \<noteq> NULL
          then seq (fprintf_stderr (''Invalid pointers'' @ [CHR 0x0A]))
                   (ret False)
          else ret True))"

text \<open>The loop of \<^verbatim>\<open>verify_chunk\<close>, with the condition the source gives it.\<close>

fun verify_chunk_loop :: "nat \<Rightarrow> addr \<Rightarrow> addr prog" where
  "verify_chunk_loop 0 chunk = crash OutOfFuel"
| "verify_chunk_loop (Suc fuel) chunk =
     bind (get_block_state chunk) (\<lambda>st.
     if st \<noteq> FENCEPOST
     then bind (get_block_size chunk) (\<lambda>csz.
          bind (get_right_header chunk) (\<lambda>right.
          bind (get_left_size right) (\<lambda>l.
          if csz \<noteq> l
          then seq (fprintf_stderr (''Invalid sizes'' @ [CHR 0x0A]))
                   (ret chunk)
          else bind (get_right_header chunk) (\<lambda>chunk.
               verify_chunk_loop fuel chunk))))
     else ret NULL)"

definition verify_chunk :: "nat \<Rightarrow> addr \<Rightarrow> addr prog" where
  "verify_chunk fuel chunk =
     bind (get_block_state chunk) (\<lambda>st.
     if st \<noteq> FENCEPOST
     then seq (fprintf_stderr (''Invalid fencepost'' @ [CHR 0x0A]))
              (ret chunk)
     else verify_chunk_loop fuel chunk)"

text \<open>
  \<^verbatim>\<open>verify_tags\<close> returns \<^verbatim>\<open>bool\<close>: the \<^verbatim>\<open>return invalid;\<close> of a pointer that is not null
  is \<^verbatim>\<open>true\<close>, the final \<^verbatim>\<open>return NULL;\<close> is \<^verbatim>\<open>false\<close>. Nothing in the loop writes
  \<^verbatim>\<open>numOsChunks\<close>, so its value \<open>n\<close> is read once.
\<close>

function verify_tags_from :: "nat \<Rightarrow> nat \<Rightarrow> nat \<Rightarrow> bool prog" where
  "verify_tags_from fuel n i =
     (if i < n
      then bind (\<lambda>s. Inr (osChunkList s i, s)) (\<lambda>chunk.
           bind (verify_chunk fuel chunk) (\<lambda>invalid.
           if invalid \<noteq> NULL then ret (invalid \<noteq> NULL)
           else verify_tags_from fuel n (i + 1)))
      else ret (NULL \<noteq> (NULL :: addr)))"
  by pat_completeness auto
termination
  by (relation "measure (\<lambda>(fuel, n, i). n - i)") auto

definition verify_tags :: "nat \<Rightarrow> bool prog" where
  "verify_tags fuel = bind (\<lambda>s. Inr (numOsChunks s, s)) (\<lambda>n. verify_tags_from fuel n 0)"

text \<open>\<^verbatim>\<open>verify_freelist() && verify_tags()\<close>: the right side runs only when the left side
  is true.\<close>

definition verify :: "nat \<Rightarrow> bool prog" where
  "verify fuel =
     bind (verify_freelist fuel) (\<lambda>ok.
     if ok then verify_tags fuel else ret False)"

declare floyd.simps [simp del] detect_cycles_from.simps [simp del]
  check_links.simps [simp del] verify_pointers_from.simps [simp del]
  verify_chunk_loop.simps [simp del] verify_tags_from.simps [simp del]

section \<open>The public interface\<close>

text \<open>
  The mutex of \<^verbatim>\<open>my_malloc\<close> and \<^verbatim>\<open>my_free\<close> orders the calls of different threads; the
  model is one thread, where locking and unlocking change nothing.
\<close>

definition my_malloc :: "nat \<Rightarrow> size_t \<Rightarrow> addr prog" where
  "my_malloc fuel sz = allocate_object fuel sz"

definition my_free :: "addr \<Rightarrow> unit prog" where
  "my_free p = deallocate_object p"













section \<open>Runs of the allocator\<close>

text \<open>
  What a run leaves to be observed: the value it returned or the way the process ended,
  and the two output streams.
\<close>

datatype 'a outcome = Returns 'a | Segfaults addr | Exits nat | Starves

definition outcome :: "fault + 'a \<times> process \<Rightarrow> 'a outcome" where
  "outcome r = (case r of Inl (Segfault a) \<Rightarrow> Segfaults a
                        | Inl (Exited c s) \<Rightarrow> Exits c
                        | Inl OutOfFuel \<Rightarrow> Starves
                        | Inr (x, s) \<Rightarrow> Returns x)"

definition final_state :: "fault + 'a \<times> process \<Rightarrow> process option" where
  "final_state r = (case r of Inl (Exited c s) \<Rightarrow> Some s
                            | Inl _ \<Rightarrow> None
                            | Inr (x, s) \<Rightarrow> Some s)"


definition final_stderr :: "fault + 'a \<times> process \<Rightarrow> string" where
  "final_stderr r = (case final_state r of Some s \<Rightarrow> stderr s | None \<Rightarrow> [])"

text \<open>
  The runs below start a process whose program break is at \<open>0x10000\<close> and let the
  constructor \<^verbatim>\<open>init\<close> run first. Loops get four units of fuel, more than any of them uses.
\<close>

definition fuel4 :: nat where
  "fuel4 = Suc (Suc (Suc (Suc 0)))"

definition started :: "nat \<Rightarrow> 'a prog \<Rightarrow> fault + 'a \<times> process" where
  "started MAX_OS_CHUNKS m = bind (init MAX_OS_CHUNKS) (\<lambda>_. m) (boot 0x10000)"

text \<open>Scenario 2 of the spec, followed by \<^verbatim>\<open>verify()\<close>.\<close>

definition run_verify :: "fault + bool \<times> process" where
  "run_verify = started 1024
     (bind (my_malloc fuel4 1024) (\<lambda>p.
      seq (my_free p)
          (verify fuel4)))"

text \<open>A request that the only free block, of 4064 bytes, cannot satisfy.\<close>

definition run_too_large :: "fault + addr \<times> process" where
  "run_too_large = started 1024 (my_malloc fuel4 5000)"


text \<open>
  The block for 2528 bytes is cut from the second block of the catch-all list and leaves
  a rest of 488 bytes. The run returns the header of the block freed before, the head of
  the catch-all list, the size of that head, and the two nodes after it.
\<close>

definition run_split_488 :: "fault + (addr \<times> addr \<times> size_t \<times> addr \<times> addr) \<times> process" where
  "run_split_488 = started 1024
     (bind (my_malloc fuel4 984) (\<lambda>p1.
      bind (my_malloc fuel4 16) (\<lambda>p2.
      seq (my_free p1)
     (bind (my_malloc fuel4 2528) (\<lambda>p3.
      bind (get_next (freelistSentinels (N_LISTS - 1))) (\<lambda>head.
      bind (get_block_size head) (\<lambda>hsz.
      bind (get_next head) (\<lambda>second.
      bind (get_next second) (\<lambda>third.
      ret (ptr_to_header p1, head, hsz, second, third))))))))))"

text \<open>
  Four blocks are allocated; then the first (1016 bytes, to the right) and the third (32
  bytes, to the left) are freed, and last the second, which lies between them.
\<close>

definition run_free_between :: "fault + unit \<times> process" where
  "run_free_between = started 1024
     (bind (my_malloc fuel4 1000) (\<lambda>x1.
      bind (my_malloc fuel4 16) (\<lambda>x2.
      bind (my_malloc fuel4 16) (\<lambda>x3.
      bind (my_malloc fuel4 16) (\<lambda>x4.
      seq (my_free x1)
     (seq (my_free x3)
          (my_free x2)))))))"

text \<open>
  A request of \<open>2\<^sup>3\<^sup>2 + 8\<close> bytes between two requests of 16 bytes, then freed. The run
  returns the header of the freed block with its state, and the header to its right with
  its state.
\<close>

definition run_huge_request :: "fault + (addr \<times> 64 word \<times> addr \<times> 64 word) \<times> process" where
  "run_huge_request = started 1024
     (bind (my_malloc fuel4 16) (\<lambda>p1.
      bind (my_malloc fuel4 4294967304) (\<lambda>p2.
      bind (my_malloc fuel4 16) (\<lambda>p3.
      seq (my_free p2)
     (bind (get_block_state (ptr_to_header p2)) (\<lambda>st.
      bind (get_right_header (ptr_to_header p2)) (\<lambda>right.
      bind (get_block_state right) (\<lambda>rst.
      ret (ptr_to_header p2, st, right, rst)))))))))"

text \<open>State, size and \<^verbatim>\<open>left_size\<close> of the header at \<open>h\<close>, when its cells can be read.\<close>

definition header_at :: "addr \<Rightarrow> process \<Rightarrow> (64 word \<times> size_t \<times> size_t) option" where
  "header_at h s =
     (case bind (get_block_state h) (\<lambda>st.
           bind (get_block_size h) (\<lambda>sz.
           bind (get_left_size h) (\<lambda>l.
           ret (st, sz, l)))) s
      of Inl e \<Rightarrow> None | Inr r \<Rightarrow> Some (fst r))"

text \<open>
  A chunk of 32 bytes: the run returns the block \<^verbatim>\<open>allocate_chunk\<close> returned, and state
  and size of the header at byte \<open>S - H = 16\<close> of the chunk.
\<close>

definition run_chunk_32 :: "fault + (addr \<times> 64 word \<times> size_t) \<times> process" where
  "run_chunk_32 =
     bind (allocate_chunk 32) (\<lambda>hdr.
     bind (get_block_state (0x10000 + (32 - ALLOC_HEADER_SIZE))) (\<lambda>st.
     bind (get_block_size (0x10000 + (32 - ALLOC_HEADER_SIZE))) (\<lambda>sz.
     ret (hdr, st, sz)))) (boot 0x10000)"

text \<open>
  Growth without adjacency: some other part of the process moves the program break by 16
  bytes, then a request of 4040 bytes arrives while every free list is empty. \<open>rounds k\<close>
  does this \<open>k\<close> times. The run starts with a request of 4040 bytes, which takes the whole
  free block of the first chunk, and returns \<^verbatim>\<open>numOsChunks\<close> after \<open>rounds M\<close>, where \<open>M\<close> is
  the value of \<^verbatim>\<open>MAX_OS_CHUNKS\<close>.
\<close>

definition gap_round :: "unit prog" where
  "gap_round = seq (os_sbrk 16) (bind (my_malloc fuel4 4040) (\<lambda>_. ret ()))"

fun rounds :: "nat \<Rightarrow> unit prog" where
  "rounds 0 = ret ()"
| "rounds (Suc k) = seq (rounds k) gap_round"

definition run_chunks :: "nat \<Rightarrow> fault + nat \<times> process" where
  "run_chunks M = started M
     (bind (my_malloc fuel4 4040) (\<lambda>_.
      seq (rounds M)
          (\<lambda>s. Inr (numOsChunks s, s))))"

section \<open>Evaluating the model\<close>

text \<open>
  The store after the loop of \<^verbatim>\<open>init\<close> has run from sentinel \<open>i\<close> on, in closed form: the
  cells of \<^verbatim>\<open>next\<close> and \<^verbatim>\<open>prev\<close> of every sentinel from \<open>i\<close> hold the address of their
  sentinel, every other cell is as in \<open>m\<close>.
\<close>

definition sentinel_cells :: "int \<Rightarrow> (addr \<Rightarrow> 64 word) \<Rightarrow> addr \<Rightarrow> 64 word" where
  "sentinel_cells i m =
     (\<lambda>a. if 4096 + 32 * nat i \<le> unat a \<and> unat a < 5984 \<and>
             (unat a mod 32 = 16 \<or> unat a mod 32 = 24)
          then a - word_of_nat (unat a mod 32) else m a)"

text \<open>
  The process after \<^verbatim>\<open>init\<close> has run from \<open>boot 0x10000\<close>: one chunk of 4096 bytes at
  \<open>0x10000\<close>, whose free block of 4064 bytes at \<open>0x10010\<close> is the only node of the
  catch-all list.
\<close>

definition fresh_heap :: process where
  "fresh_heap =
     \<lparr>mem = (sentinel_cells 0
               ((\<lambda>_. 0)(0x10000 := 18, 0x10008 := 16, 0x10FF0 := 18, 0x10FF8 := 4064,
                        0x10010 := 4064, 0x10018 := 16)))
             (0x1750 := 0x10010, 0x1758 := 0x10010, 0x10020 := 0x1740, 0x10028 := 0x1740),
      heap_lo = 0x10000, brk = 0x11000, lastFencePost = 0x10FF0, base = 0x10000,
      osChunkList = (\<lambda>_. NULL)(0 := 0x10000), numOsChunks = 1, stdout = [], stderr = []\<rparr>"

text \<open>
  The process after \<^verbatim>\<open>malloc(16)\<close> on the fresh heap: the block of 32 bytes at \<open>0x10FD0\<close>
  is allocated (its pointer is \<open>0x10FE0\<close>), the free block at \<open>0x10010\<close> has 4032 bytes.
\<close>

definition used_heap :: process where
  "used_heap =
     fresh_heap\<lparr>mem := (mem fresh_heap)
       (0x10010 := 4032, 0x10FD8 := 4032, 0x10FF8 := 32, 0x10FD0 := 33)\<rparr>"

text \<open>
  What every state between two rounds of \<open>rounds\<close> has in common, after \<open>k\<close> rounds: the
  break has moved by 4112 bytes per round, the last fencepost ends at the break, the
  catch-all list is empty, and \<open>k + 1\<close> chunks are registered.
\<close>

definition registry_inv :: "nat \<Rightarrow> process \<Rightarrow> bool" where
  "registry_inv k s \<longleftrightarrow>
     heap_lo s = 0x10000 \<and> unat (brk s) = 0x11000 + 4112 * k \<and>
     lastFencePost s = brk s - 16 \<and> numOsChunks s = k + 1 \<and>
     mem s 0x1750 = 0x1740 \<and> mem s 0x1758 = 0x1740"

text \<open>A run that, when it returns, has left the process as it found it.\<close>

definition reads_only :: "'a prog \<Rightarrow> bool" where
  "reads_only m \<longleftrightarrow> (\<forall>s r s'. m s = Inr (r, s') \<longrightarrow> s' = s)"

lemma unat_word_of_int_small:
  "0 \<le> i \<Longrightarrow> i < 59 \<Longrightarrow> unat (word_of_int i :: 64 word) = nat i"
  by (simp add: unat_eq_nat_uint uint_word_of_int_eq take_bit_int_eq_self)

lemma unat_sentinel:
  "0 \<le> i \<Longrightarrow> i < 59 \<Longrightarrow> unat (freelistSentinels i) = 4096 + 32 * nat i"
  by (simp add: freelistSentinels_def unat_word_ariths unat_word_of_int_small)

lemma unat_sentinel_off:
  assumes "0 \<le> i" "i < 59" "k < 32"
  shows "unat (freelistSentinels i + word_of_nat k) = 4096 + 32 * nat i + k"
proof -
  have "unat (word_of_nat k :: 64 word) = k"
    using assms by (simp add: unat_of_nat)
  then show ?thesis
    using assms by (simp add: unat_word_ariths unat_sentinel)
qed

lemma links_range_step:
  fixes u n :: nat
  assumes "u \<noteq> 4096 + 32 * n + 16" "u \<noteq> 4096 + 32 * n + 24"
  shows "(4096 + 32 * (n + 1) \<le> u \<and> u < 5984 \<and> (u mod 32 = 16 \<or> u mod 32 = 24))
     \<longleftrightarrow> (4096 + 32 * n \<le> u \<and> u < 5984 \<and> (u mod 32 = 16 \<or> u mod 32 = 24))"
proof -
  have "False" if lo: "4096 + 32 * n \<le> u" and md: "u mod 32 = 16 \<or> u mod 32 = 24"
    and hi: "u < 4096 + 32 * n + 32"
  proof -
    define r where "r = u - (4096 + 32 * n)"
    have u: "u = 32 * (128 + n) + r" and r: "r < 32"
      using lo hi by (simp_all add: r_def)
    have "(32 * (128 + n) + r) mod 32 = r mod 32"
      by (rule mod_mult_self4)
    then have "u mod 32 = r"
      using u r by simp
    with md have "r = 16 \<or> r = 24" by simp
    with u assms show False by auto
  qed
  then have "4096 + 32 * n \<le> u \<Longrightarrow> u mod 32 = 16 \<or> u mod 32 = 24 \<Longrightarrow> 4096 + 32 * (n + 1) \<le> u"
    by (metis not_le_imp_less add.assoc mult_Suc_right Suc_eq_plus1 add.commute)
  then show ?thesis by auto
qed

lemma sentinel_cells_step:
  assumes i: "0 \<le> i" "i < 59"
  shows "sentinel_cells (i + 1)
           (m(freelistSentinels i + 16 := freelistSentinels i,
              freelistSentinels i + 24 := freelistSentinels i))
         = sentinel_cells i m"
proof (rule ext)
  fix a :: addr
  let ?S = "freelistSentinels i"
  have u16: "unat (?S + 16) = 4096 + 32 * nat i + 16"
    using unat_sentinel_off [OF i, of 16] by simp
  have u24: "unat (?S + 24) = 4096 + 32 * nat i + 24"
    using unat_sentinel_off [OF i, of 24] by simp
  have n1: "nat (i + 1) = nat i + 1" using i by simp
  have e16: "a = ?S + 16 \<longleftrightarrow> unat a = 4096 + 32 * nat i + 16"
    using u16 by (metis word_unat_eq_iff)
  have e24: "a = ?S + 24 \<longleftrightarrow> unat a = 4096 + 32 * nat i + 24"
    using u24 by (metis word_unat_eq_iff)
  have lt: "nat i < 59" using i by simp
  consider (a) "a = ?S + 16" | (b) "a = ?S + 24" | (c) "a \<noteq> ?S + 16" "a \<noteq> ?S + 24"
    by blast
  then show "sentinel_cells (i + 1) (m(?S + 16 := ?S, ?S + 24 := ?S)) a = sentinel_cells i m a"
  proof cases
    case a
    then have u: "unat a = 4096 + 32 * nat i + 16" using e16 by simp
    have v: "a - 16 = ?S" using a by simp
    have l: "(m(?S + 16 := ?S, ?S + 24 := ?S)) a = ?S" using a by simp
    show ?thesis using lt unfolding sentinel_cells_def n1 l by (simp add: u v)
  next
    case b
    then have u: "unat a = 4096 + 32 * nat i + 24" using e24 by simp
    have v: "a - 24 = ?S" using b by simp
    have l: "(m(?S + 16 := ?S, ?S + 24 := ?S)) a = ?S" using b by simp
    show ?thesis using lt unfolding sentinel_cells_def n1 l by (simp add: u v)
  next
    case c
    then have ne: "unat a \<noteq> 4096 + 32 * nat i + 16" "unat a \<noteq> 4096 + 32 * nat i + 24"
      using e16 e24 by simp_all
    have l: "(m(?S + 16 := ?S, ?S + 24 := ?S)) a = m a" using c by simp
    show ?thesis
      unfolding sentinel_cells_def n1 l links_range_step [OF ne] by simp
  qed
qed

lemmas prog_defs = ret_def bind_def seq_def crash_def load_def store_def sbrk_def os_sbrk_def
  get_block_size_def get_block_state_def set_block_size_def set_block_state_def
  get_left_size_def set_left_size_def get_next_def set_next_def get_prev_def set_prev_def
  get_header_from_offset_def get_right_header_def get_left_header_def initialize_fencepost_def
  insert_os_chunk_def insert_fenceposts_def allocate_chunk_def

lemma mapped_sentinel:
  assumes "0 \<le> i" "i < 59" "k = 16 \<or> k = 24"
  shows "mapped s (freelistSentinels i + word_of_nat k)"
proof -
  have "k < 32" using assms by auto
  from unat_sentinel_off [OF assms(1,2) this]
  show ?thesis using assms by (auto simp: mapped_def)
qed

lemma init_sentinels_closed:
  "0 \<le> i \<Longrightarrow> i \<le> 59 \<Longrightarrow>
   init_sentinels i s = Inr ((), s\<lparr>mem := sentinel_cells i (mem s)\<rparr>)"
proof (induction i arbitrary: s rule: init_sentinels.induct)
  case (1 i)
  show ?case
  proof (cases "i < 59")
    case False
    with 1 have i: "i = 59" by simp
    have "sentinel_cells 59 (mem s) = mem s"
      by (rule ext) (auto simp: sentinel_cells_def)
    then show ?thesis
      unfolding i by (subst init_sentinels.simps) (simp add: ret_def)
  next
    case True
    let ?S = "freelistSentinels i"
    have m16: "\<And>s. mapped s (?S + 16)" and m24: "\<And>s. mapped s (?S + 24)"
      using mapped_sentinel [OF "1.prems"(1) True, of 16] mapped_sentinel [OF "1.prems"(1) True, of 24]
      by simp_all
    let ?s2 = "s\<lparr>mem := (mem s)(?S + 16 := ?S, ?S + 24 := ?S)\<rparr>"
    have step: "init_sentinels i s = init_sentinels (i + 1) ?s2"
      by (subst init_sentinels.simps)
         (simp add: True Let_def seq_def bind_def set_next_def set_prev_def store_def m16 m24)
    have "init_sentinels (i + 1) ?s2 = Inr ((), ?s2\<lparr>mem := sentinel_cells (i + 1) (mem ?s2)\<rparr>)"
      using "1.IH" [OF True refl] "1.prems" True by simp
    then show ?thesis
      unfolding step using sentinel_cells_step [OF "1.prems"(1) True, of "mem s"] by simp
  qed
qed

lemmas eval_defs = prog_defs mapped_def freelistSentinels_def grow_def take_block_def c_rem_def
  sentinel_cells_def

lemma bind_cong_weak: "m = m' \<Longrightarrow> bind m f = bind m' f"
  by simp

lemma seq_cong_weak: "m = m' \<Longrightarrow> seq m k = seq m' k"
  by simp

lemmas congs = sum.case_cong_weak prod.case_cong_weak let_weak_cong bind_cong_weak seq_cong_weak

lemma and7_not7: "(w AND NOT 7) AND (7 :: 64 word) = 0"
  by (simp add: and.assoc)

lemma and7_or_not7: "((w AND NOT 7) OR (v AND 7)) AND (7 :: 64 word) = v AND 7"
  by (simp add: bit.conj_disj_distrib2 and.assoc)

lemma and7_minus8: "(w AND - 8) AND (7 :: 64 word) = 0"
  using and7_not7 [of w] by simp

lemma and7_eq_mod: "unat (x AND (7 :: 64 word)) = unat x mod 8"
proof -
  have "x AND 7 = take_bit 3 x"
    by (simp add: take_bit_eq_mask mask_eq_exp_minus_1)
  then have "unat (x AND 7) = take_bit 3 (unat x)"
    by (simp only: unsigned_take_bit_eq)
  then show ?thesis
    by (simp add: take_bit_eq_mod)
qed

lemma aligned_and_not7:
  assumes "unat (x :: 64 word) mod 8 = 0"
  shows "x AND NOT 7 = x"
proof -
  have "unat (x AND 7) = 0" using assms by (simp add: and7_eq_mod)
  then have z: "x AND 7 = 0" by (simp add: unat_eq_0)
  have "x = (x AND NOT 7) OR (x AND 7)"
    by (simp add: bit.conj_disj_distrib [symmetric])
  then show ?thesis using z by simp
qed

lemma mapped_mem_update [simp]: "mapped (s\<lparr>mem := m\<rparr>) a = mapped s a"
  by (simp add: mapped_def)

lemma set_block_state_mapped:
  "mapped s h \<Longrightarrow>
   set_block_state h st s = Inr ((), s\<lparr>mem := (mem s)(h := (mem s h AND NOT 7) OR (st AND 7))\<rparr>)"
  by (simp add: set_block_state_def bind_def load_def store_def)

lemma set_block_size_mapped:
  "mapped s h \<Longrightarrow>
   set_block_size h sz s = Inr ((), s\<lparr>mem := (mem s)(h := (sz AND NOT 7) OR (mem s h AND 7))\<rparr>)"
  by (simp add: set_block_size_def bind_def load_def store_def)

lemma set_left_size_mapped:
  "mapped s (h + 8) \<Longrightarrow> set_left_size h v s = Inr ((), s\<lparr>mem := (mem s)(h + 8 := v)\<rparr>)"
  by (simp add: set_left_size_def store_def)

lemma initialize_fencepost_mapped:
  assumes "mapped s fp" "mapped s (fp + 8)"
  shows "initialize_fencepost fp l s = Inr ((), s\<lparr>mem := (mem s)(fp := 18, fp + 8 := l)\<rparr>)"
proof -
  have "(16 AND NOT 7) OR (((mem s fp AND NOT 7) OR (FENCEPOST AND 7)) AND 7) = (18 :: 64 word)"
    by (simp only: and7_or_not7) simp
  then show ?thesis
    using assms
    by (simp add: initialize_fencepost_def seq_def bind_def set_block_state_mapped
        set_block_size_mapped set_left_size_mapped)
qed

lemma header_at_mapped:
  assumes "mapped s h" "mapped s (h + 8)"
  shows "header_at h s = Some (mem s h AND 7, mem s h AND NOT 7, mem s (h + 8))"
  using assms
  by (simp add: header_at_def bind_def ret_def get_block_state_def get_block_size_def
      get_left_size_def load_def)

lemma chunk_unats:
  assumes "48 \<le> unat S" "unat (b :: 64 word) + unat (S :: 64 word) < 2 ^ 64"
  shows "unat (b + 8) = unat b + 8" "unat (b + 16) = unat b + 16"
    "unat (b + 16 + 8) = unat b + 24"
    "unat (b + (S - 16)) = unat b + unat S - 16"
    "unat (b + (S - 16) + 8) = unat b + unat S - 8"
    "unat (b + S) = unat b + unat S" "unat (S - 32) = unat S - 32"
proof -
  have uS16: "unat (S - 16) = unat S - 16"
    using assms by (simp add: unat_sub_if_size word_size)
  show uS32: "unat (S - 32) = unat S - 32"
    using assms by (simp add: unat_sub_if_size word_size)
  show "unat (b + S) = unat b + unat S"
    using assms by (simp add: unat_word_ariths)
  show "unat (b + 8) = unat b + 8"
    using assms by (simp add: unat_word_ariths)
  show u16: "unat (b + 16) = unat b + 16"
    using assms by (simp add: unat_word_ariths)
  show "unat (b + 16 + 8) = unat b + 24"
    using assms by (simp add: unat_word_ariths)
  show ur: "unat (b + (S - 16)) = unat b + unat S - 16"
    using assms uS16 by (simp add: unat_word_ariths)
  have "unat (b + (S - 16) + 8) = (unat (b + (S - 16)) + 8) mod 2 ^ 64"
    by (simp only: unat_word_ariths) simp
  then show "unat (b + (S - 16) + 8) = unat b + unat S - 8"
    using assms ur by simp
qed

lemma allocate_chunk_state:
  assumes S: "48 \<le> unat S" "unat S mod 8 = 0"
    and b: "unat (brk s) mod 8 = 0" "unat (heap_lo s) \<le> unat (brk s)"
           "unat (brk s) + unat S < 2 ^ 64"
  shows "allocate_chunk S s =
           Inr (brk s + 16,
                s\<lparr>brk := brk s + S,
                  mem := (mem s)(brk s := 18, brk s + 8 := 16,
                                 brk s + (S - 16) := 18, brk s + (S - 16) + 8 := S - 32,
                                 brk s + 16 := S - 32, brk s + 16 + 8 := 16)\<rparr>)"
proof -
  define b where "b = brk s"
  define h where "h = b + 16"
  define r where "r = b + (S - 16)"
  define s1 where "s1 = s\<lparr>brk := b + S\<rparr>"
  have bs: "brk s = b" by (simp add: b_def)
  have b': "unat b mod 8 = 0" "unat (heap_lo s) \<le> unat b" "unat b + unat S < 2 ^ 64"
    using b by (simp_all add: b_def)
  note u = chunk_unats [OF S(1) b'(3), folded h_def r_def]
  have al32: "(S - 32) AND NOT 7 = S - 32"
    by (rule aligned_and_not7) (use S u(7) in presburger)
  have md: "(unat b + 8) mod 8 = 0" "(unat b + 16) mod 8 = 0"
    "(unat b + 24) mod 8 = 0" "(unat b + unat S - 16) mod 8 = 0" "(unat b + unat S - 8) mod 8 = 0"
    using b' S by presburger+
  have mp: "mapped s1 b" "mapped s1 (b + 8)" "mapped s1 h" "mapped s1 (h + 8)"
    "mapped s1 r" "mapped s1 (r + 8)"
    using b' S md by (auto simp: mapped_def s1_def u)
  have ne: "r \<noteq> b" "r \<noteq> b + 8" "r \<noteq> h" "r \<noteq> h + 8" "r + 8 \<noteq> b" "r + 8 \<noteq> b + 8"
    "r + 8 \<noteq> h" "r + 8 \<noteq> h + 8" "h \<noteq> b" "h \<noteq> b + 8" "h + 8 \<noteq> b" "h + 8 \<noteq> b + 8"
    "b + 8 \<noteq> b" "h + 8 \<noteq> h" "r + 8 \<noteq> r"
    using S b' u by (auto simp: word_unat_eq_iff)
  define m6 where
    "m6 = (mem s)(b := 18, b + 8 := 16, r := 18, r + 8 := S - 32, h := S - 32, h + 8 := 16)"
  have sb: "sbrk S s = Inr (b, s1)"
    using b by (simp add: sbrk_def s1_def bs)
  have "allocate_chunk S s = Inr (h, s1\<lparr>mem := m6\<rparr>)"
    using mp ne
    apply (simp add: allocate_chunk_def insert_fenceposts_def get_header_from_offset_def Let_def
        bind_def seq_def ret_def sb initialize_fencepost_mapped set_block_state_mapped
        set_block_size_mapped set_left_size_mapped h_def [symmetric] r_def [symmetric])
    apply (simp add: s1_def m6_def al32 [simplified] and7_minus8)
    done
  then show ?thesis
    unfolding s1_def m6_def h_def r_def b_def by simp
qed

lemma init_fresh: "0 < M \<Longrightarrow> init M (boot 0x10000) = Inr ((), fresh_heap)"
  by (simp add: fresh_heap_def eval_defs init_def init_sentinels_closed boot_def Let_def
        cong: congs)





















lemmas run_defs = started_def fuel4_def my_malloc_def my_free_def deallocate_object_def
  coalesce_right_def coalesce_left_def insert_free_def printf_def fprintf_stderr_def assert_def
  ptr_to_header_def find_fit.simps search_lists.simps allocate_object.simps init_fresh
  fresh_heap_def Let_def

lemmas verify_defs = verify_def verify_freelist_def verify_tags_def verify_chunk_def
  detect_cycles_def verify_pointers_def floyd.simps detect_cycles_from.simps check_links.simps
  verify_pointers_from.simps verify_chunk_loop.simps verify_tags_from.simps

lemma malloc_16_fresh: "my_malloc fuel4 16 fresh_heap = Inr (0x10FE0, used_heap)"
  apply (simp add: used_heap_def run_defs eval_defs cong: congs)
  apply (rule ext)
  apply simp
  done




lemmas sym_defs = ret_def bind_def seq_def crash_def load_def store_def sbrk_def os_sbrk_def
  get_block_size_def get_block_state_def set_block_size_def set_block_state_def
  get_left_size_def set_left_size_def get_next_def set_next_def get_prev_def set_prev_def
  get_header_from_offset_def get_right_header_def get_left_header_def
  freelistSentinels_def grow_def take_block_def c_rem_def
  fuel4_def my_malloc_def find_fit.simps search_lists.simps allocate_object.simps Let_def

lemma gap_round_step:
  assumes inv: "registry_inv k s" and room: "0x11000 + 4112 * (k + 1) < (2 :: nat) ^ 64"
  shows "\<exists>s'. gap_round s = Inr ((), s') \<and> registry_inv (k + 1) s'"
proof -
  define b where "b = brk s"
  have bs: "brk s = b" by (simp add: b_def)
  have ub: "unat b = 0x11000 + 4112 * k" and lo: "heap_lo s = 0x10000"
    and lf: "lastFencePost s = b - 16" and n: "numOsChunks s = k + 1"
    and s58: "mem s 0x1750 = 0x1740" "mem s 0x1758 = 0x1740"
    using inv by (simp_all add: registry_inv_def b_def)
  have u: "unat (b + 16) = unat b + 16" "unat (b + 24) = unat b + 24"
    "unat (b + 32) = unat b + 32" "unat (b + 40) = unat b + 40"
    "unat (b + 48) = unat b + 48" "unat (b + 56) = unat b + 56"
    "unat (b + 4096) = unat b + 4096" "unat (b + 4104) = unat b + 4104"
    "unat (b + 4112) = unat b + 4112"
    using ub room by (simp_all add: unat_word_ariths)
  define s1 where "s1 = s\<lparr>brk := b + 16\<rparr>"
  have os: "os_sbrk 16 s = Inr ((), s1)"
    using ub room by (simp add: os_sbrk_def sbrk_def bind_def ret_def s1_def bs)
  have "(0x11000 :: nat) + 4112 * k = 8 * (8704 + 514 * k)"
    by simp
  then have md: "unat b mod 8 = 0"
    unfolding ub by (simp only: mod_mult_self1_is_0)
  have ac: "allocate_chunk 4096 s1 =
           Inr (b + 32,
                s1\<lparr>brk := b + 4112,
                  mem := (mem s)(b + 16 := 18, b + 24 := 16,
                                 b + 4096 := 18, b + 4104 := 4064,
                                 b + 32 := 4064, b + 40 := 16)\<rparr>)"
    using allocate_chunk_state [of 4096 s1] ub room md u lo
    by (simp add: s1_def add.commute [where ?'a = "64 word"])
  have bne: "b \<noteq> c" "c \<noteq> b" if "unat c < 69632" for c
    using that ub by (auto simp: word_unat_eq_iff)
  have nz: "b + 16 \<noteq> 0" "b + 24 \<noteq> 0" "b + 32 \<noteq> 0" "b + 40 \<noteq> 0" "b + 48 \<noteq> 0"
    "b + 56 \<noteq> 0" "b + 4096 \<noteq> 0" "b + 4104 \<noteq> 0"
    using u ub by (auto simp: word_unat_eq_iff)
  show ?thesis
    unfolding gap_round_def
    using ub room md u lo lf n s58 nz
    apply (simp add: seq_def [of "os_sbrk 16"] bind_def [of "os_sbrk 16"] os)
    apply (simp add: sym_defs mapped_def s1_def ac [unfolded s1_def] bne add.commute [where ?'a = "64 word"] cong: congs)
    apply (simp add: registry_inv_def bne)
    done
qed

lemma rounds_inv:
  assumes "registry_inv k s" and "0x11000 + 4112 * (k + n) < (2 :: nat) ^ 64"
  shows "\<exists>s'. rounds n s = Inr ((), s') \<and> registry_inv (k + n) s'"
  using assms
proof (induction n)
  case 0
  then show ?case by (simp add: ret_def)
next
  case (Suc n)
  from Suc.prems have "0x11000 + 4112 * (k + n) < (2 :: nat) ^ 64" by simp
  from Suc.IH [OF Suc.prems(1) this]
  obtain s1 where r: "rounds n s = Inr ((), s1)" and i: "registry_inv (k + n) s1"
    by blast
  from Suc.prems have "0x11000 + 4112 * (k + n + 1) < (2 :: nat) ^ 64" by simp
  from gap_round_step [OF i this]
  obtain s2 where g: "gap_round s1 = Inr ((), s2)" and i2: "registry_inv (k + n + 1) s2"
    by blast
  from r g i2 show ?case
    by (simp add: seq_def bind_def)
qed

lemma first_malloc_4040:
  "\<exists>s. my_malloc fuel4 4040 fresh_heap = Inr (0x10020, s) \<and> registry_inv 0 s"
  by (simp add: registry_inv_def run_defs eval_defs cong: congs)

text \<open>
  \<^verbatim>\<open>verify_tags\<close> on chunks that all begin with a fencepost, and \<^verbatim>\<open>verify\<close> with it: the
  answer is never true.
\<close>

lemma verify_chunk_fencepost:
  assumes "get_block_state chunk s = Inr (FENCEPOST, s)"
  shows "verify_chunk (Suc fuel) chunk s = Inr (NULL, s)"
  using assms
  by (simp add: verify_chunk_def verify_chunk_loop.simps bind_def ret_def)

lemma verify_tags_from_fenceposts:
  assumes "\<forall>i<n. get_block_state (osChunkList s i) s = Inr (FENCEPOST, s)"
  shows "verify_tags_from (Suc fuel) n i s = Inr (False, s)"
  using assms
proof (induction "n - i" arbitrary: i)
  case 0
  then show ?case
    by (subst verify_tags_from.simps) (simp add: ret_def)
next
  case (Suc d)
  then have i: "i < n" and d: "d = n - (i + 1)" by simp_all
  have c: "verify_chunk (Suc fuel) (osChunkList s i) s = Inr (NULL, s)"
    using Suc.prems i by (simp add: verify_chunk_fencepost)
  show ?case
    using Suc.hyps(1) [OF d Suc.prems] i c
    by (subst verify_tags_from.simps) (simp add: bind_def)
qed

lemma verify_tags_false_on_valid_chunks:
  assumes "\<forall>i<numOsChunks s. get_block_state (osChunkList s i) s = Inr (FENCEPOST, s)"
  shows "verify_tags (Suc fuel) s = Inr (False, s)"
  using verify_tags_from_fenceposts [OF assms]
  by (simp add: verify_tags_def bind_def)

lemma reads_only_ret: "reads_only (ret x)"
  by (simp add: reads_only_def ret_def)

lemma reads_only_load: "reads_only (load a)"
  by (auto simp: reads_only_def load_def split: if_splits)

lemma reads_only_bind:
  assumes "reads_only m" "\<And>x. reads_only (f x)"
  shows "reads_only (bind m f)"
  using assms
  by (fastforce simp: reads_only_def bind_def split: sum.splits)

lemma reads_only_crash: "reads_only (crash e)"
  by (simp add: reads_only_def crash_def)

lemma reads_only_links: "reads_only (get_next h)" "reads_only (get_prev h)"
  by (simp_all add: get_next_def get_prev_def reads_only_load)

lemma reads_only_floyd: "reads_only (floyd fuel freelist slow fast)"
proof (induction fuel arbitrary: slow fast)
  case 0
  show ?case by (simp add: floyd.simps reads_only_crash)
next
  case (Suc fuel)
  show ?case
    by (simp add: floyd.simps reads_only_ret reads_only_bind reads_only_links Suc)
qed

lemma reads_only_detect_cycles: "reads_only (detect_cycles_from fuel i)"
proof (induction fuel i rule: detect_cycles_from.induct)
  case (1 fuel i)
  show ?case
  proof (cases "i < N_LISTS")
    case True
    have "reads_only (case r of None \<Rightarrow> detect_cycles_from fuel (i + 1) | Some slow \<Rightarrow> ret slow)"
      for r
      using 1 [OF True refl] by (cases r) (simp_all add: reads_only_ret)
    then show ?thesis
      by (subst detect_cycles_from.simps)
         (simp add: True Let_def reads_only_bind reads_only_links reads_only_floyd)
  next
    case False
    then show ?thesis
      by (subst detect_cycles_from.simps) (simp add: reads_only_ret)
  qed
qed

lemma reads_only_check_links: "reads_only (check_links fuel freelist cur)"
proof (induction fuel arbitrary: cur)
  case 0
  show ?case by (simp add: check_links.simps reads_only_crash)
next
  case (Suc fuel)
  have "reads_only (if bad then ret (Some cur) else bind (get_next cur) (check_links fuel freelist))"
    for bad
    by (simp add: reads_only_ret reads_only_bind reads_only_links Suc)
  then show ?case
    by (simp add: check_links.simps reads_only_ret reads_only_bind reads_only_links)
qed

lemma reads_only_verify_pointers: "reads_only (verify_pointers_from fuel i)"
proof (induction fuel i rule: verify_pointers_from.induct)
  case (1 fuel i)
  show ?case
  proof (cases "i < N_LISTS")
    case True
    have "reads_only (case r of None \<Rightarrow> verify_pointers_from fuel (i + 1) | Some cur \<Rightarrow> ret cur)"
      for r
      using 1 [OF True refl] by (cases r) (simp_all add: reads_only_ret)
    then show ?thesis
      by (subst verify_pointers_from.simps)
         (simp add: True Let_def reads_only_bind reads_only_links reads_only_check_links)
  next
    case False
    then show ?thesis
      by (subst verify_pointers_from.simps) (simp add: reads_only_ret)
  qed
qed

lemma verify_freelist_true:
  assumes "verify_freelist fuel s = Inr (True, s')"
  shows "s' = s"
proof -
  from assms obtain c s1 where d: "detect_cycles fuel s = Inr (c, s1)"
    by (auto simp: verify_freelist_def bind_def split: sum.splits)
  then have s1: "s1 = s"
    using reads_only_detect_cycles [of fuel 0] by (simp add: reads_only_def detect_cycles_def)
  have c: "c = NULL"
    using assms d by (auto simp: verify_freelist_def bind_def seq_def ret_def split: sum.splits if_splits)
  from assms d c s1 obtain v s2 where p: "verify_pointers fuel s = Inr (v, s2)"
    by (auto simp: verify_freelist_def bind_def split: sum.splits)
  then have s2: "s2 = s"
    using reads_only_verify_pointers [of fuel 0] by (simp add: reads_only_def verify_pointers_def)
  show ?thesis
    using assms d c s1 p s2
    by (auto simp: verify_freelist_def bind_def seq_def ret_def fprintf_stderr_def
        split: sum.splits if_splits)
qed

lemma verify_never_true_on_valid_chunks:
  assumes "\<forall>i<numOsChunks s. get_block_state (osChunkList s i) s = Inr (FENCEPOST, s)"
  shows "verify (Suc fuel) s \<noteq> Inr (True, s')"
proof
  assume v: "verify (Suc fuel) s = Inr (True, s')"
  then obtain ok s1 where f: "verify_freelist (Suc fuel) s = Inr (ok, s1)"
    by (auto simp: verify_def bind_def split: sum.splits)
  show False
  proof (cases ok)
    case True
    with f have "verify_freelist (Suc fuel) s = Inr (True, s1)" by simp
    then have "s1 = s" by (rule verify_freelist_true)
    with v f True verify_tags_false_on_valid_chunks [OF assms, of fuel] show False
      by (simp add: verify_def bind_def)
  next
    case False
    with v f show False
      by (simp add: verify_def bind_def ret_def)
  qed
qed

section \<open>The claims\<close>

text \<open>
  C1. The claim: \<^verbatim>\<open>verify()\<close> returns true if and only if the free-list and boundary-tag
  invariants hold; in particular it returns true in every state in which they hold.
  The code does otherwise: \<^verbatim>\<open>verify_tags\<close> returns its \<^verbatim>\<open>NULL\<close>, that is false, when every
  chunk is valid (\<open>verify_never_true_on_valid_chunks\<close> above). After
  \<^verbatim>\<open>p = malloc(1024); free(p)\<close> on the fresh heap, where the spec itself expects true,
  \<^verbatim>\<open>verify()\<close> reports nothing on standard error and returns false.
\<close>

theorem verify_false_on_valid_heap:
  "outcome run_verify = Returns False \<and> final_stderr run_verify = []"
  unfolding run_verify_def
  by (simp add: outcome_def final_stderr_def final_state_def run_defs verify_defs eval_defs
        cong: congs)

text \<open>
  C2. The claim: when the search reaches the catch-all class and no block of that list is
  large enough, \<^verbatim>\<open>allocate\<close> treats the class as empty and goes on to grow the heap,
  without dereferencing an invalid block. The code does otherwise: after the walk has set
  \<^verbatim>\<open>hdr\<close> to \<^verbatim>\<open>NULL\<close> the statement \<^verbatim>\<open>hdr->next->prev = hdr->prev\<close> still runs. On the fresh
  heap \<^verbatim>\<open>malloc(5000)\<close> ends with the read of \<^verbatim>\<open>NULL->next\<close>, at address 16.
\<close>

theorem malloc_too_large_segfaults:
  "outcome run_too_large = Segfaults 16"
  unfolding run_too_large_def
  by (simp add: outcome_def run_defs eval_defs cong: congs)




text \<open>
  C4. The claim: \<^verbatim>\<open>numOsChunks\<close> never exceeds \<^verbatim>\<open>MAX_OS_CHUNKS\<close>, and every operation that
  registers a chunk keeps the bound. \<^verbatim>\<open>insert_os_chunk\<close> tests the bound; the growth path of
  \<^verbatim>\<open>allocate_object\<close> writes \<^verbatim>\<open>osChunkList[numOsChunks]\<close> and increments without a test.
  Whatever the value \<open>M\<close> of \<^verbatim>\<open>MAX_OS_CHUNKS\<close>: after the first chunk has been used up and
  \<open>M\<close> more chunks have been obtained, none adjacent to the one before because the break
  was moved in between, \<^verbatim>\<open>numOsChunks\<close> is \<open>M + 1\<close>. (The second premise says that the
  address space has room for the \<open>M\<close> chunks.)
\<close>

theorem registry_exceeds_MAX_OS_CHUNKS:
  assumes "0 < M" and "0x11000 + 4112 * M < (2 :: nat) ^ 64"
  shows "outcome (run_chunks M) = Returns (M + 1)"
proof -
  obtain s0 where a: "my_malloc fuel4 4040 fresh_heap = Inr (0x10020, s0)"
    and i0: "registry_inv 0 s0"
    using first_malloc_4040 by blast
  from rounds_inv [OF i0, of M] assms(2)
  obtain s1 where r: "rounds M s0 = Inr ((), s1)" and i1: "registry_inv M s1"
    by auto
  from i1 have "numOsChunks s1 = M + 1"
    by (simp add: registry_inv_def)
  then show ?thesis
    using a r assms(1)
    by (simp add: run_chunks_def started_def outcome_def bind_def seq_def init_fresh)
qed

theorem registry_exceeds_MAX_OS_CHUNKS_witness:
  "(0 :: nat) < 1 \<and> 0x11000 + 4112 * 1 < (2 :: nat) ^ 64 \<and> outcome (run_chunks 1) = Returns 2"
  using registry_exceeds_MAX_OS_CHUNKS [of 1] by simp

text \<open>
  C5. The claim: a rest whose size class is the catch-all is reattached between the
  remembered \<^verbatim>\<open>prev\<close> and \<^verbatim>\<open>next\<close> of the chosen block. The code tests \<^verbatim>\<open>loc >= N_LISTS\<close>
  where the class is the catch-all from \<^verbatim>\<open>loc = N_LISTS - 1\<close> on: a rest of exactly 488
  bytes goes to the head of the catch-all list instead. In the run the chosen block was
  second in the list, behind the block at \<open>0x10C08\<close>; afterwards the rest (at \<open>0x10010\<close>,
  488 bytes) is the head and the block at \<open>0x10C08\<close> comes after it.
\<close>

theorem split_rest_488_goes_to_head:
  "outcome run_split_488 = Returns (0x10C08, 0x10010, 488, 0x10C08, freelistSentinels 58)"
  unfolding run_split_488_def
  by (simp add: outcome_def run_defs eval_defs cong: congs)

text \<open>
  C6. The claim: when the left neighbour was not in the catch-all list and the coalesced
  right neighbour was, the block is spliced into the place of the right neighbour. The
  code does otherwise when both neighbours are coalesced: the variable \<^verbatim>\<open>right\<close> has been
  set to the block after the merged block, and the links are read from there. In the run
  that block is the right fencepost of the chunk, whose \<^verbatim>\<open>next\<close> lies at the program
  break \<open>0x11000\<close>: the process ends there.
\<close>

theorem free_between_small_and_large_segfaults:
  "outcome run_free_between = Segfaults 0x11000"
  unfolding run_free_between_def
  by (simp add: outcome_def run_defs eval_defs cong: congs)

text \<open>
  C7. The claim: for every size \<open>S\<close>, \<^verbatim>\<open>allocate_chunk(S)\<close> leaves a left fencepost at byte
  0, a right fencepost of size \<open>H\<close> at byte \<open>S - H\<close> and returns the middle block at byte
  \<open>H\<close>. As stated it fails for sizes below \<open>3H\<close>, where the three headers overlap: for
  \<open>S = 32\<close> the header at byte \<open>S - H = 16\<close> is the returned block itself, UNALLOCATED and
  of size 0.
\<close>

theorem allocate_chunk_32_overlaps:
  "outcome run_chunk_32 = Returns (0x10010, UNALLOCATED, 0)"
  unfolding run_chunk_32_def
  by (simp add: outcome_def allocate_chunk_def boot_def Let_def eval_defs cong: congs)

text \<open>
  C7, amended: for every size \<open>S\<close> that is a multiple of 8 and at least \<open>3H = 48\<close>, when
  the program break is 8-aligned and can be moved by \<open>S\<close>, \<^verbatim>\<open>allocate_chunk(S)\<close> returns
  the block at byte \<open>H\<close> of the new chunk and leaves there: at byte 0 a FENCEPOST of size
  \<open>H\<close> with \<open>left_size = H\<close>; at byte \<open>S - H\<close> a FENCEPOST of size \<open>H\<close> with
  \<open>left_size = S - 2H\<close>; at byte \<open>H\<close> an UNALLOCATED block of size \<open>S - 2H\<close> with
  \<open>left_size = H\<close>.
\<close>

theorem allocate_chunk_layout:
  assumes S: "48 \<le> unat S" "unat S mod 8 = 0"
    and b: "unat (brk s) mod 8 = 0" "unat (heap_lo s) \<le> unat (brk s)"
           "unat (brk s) + unat S < 2 ^ 64"
  shows "\<exists>s'. allocate_chunk S s = Inr (brk s + ALLOC_HEADER_SIZE, s') \<and>
              header_at (brk s) s' = Some (FENCEPOST, ALLOC_HEADER_SIZE, ALLOC_HEADER_SIZE) \<and>
              header_at (brk s + (S - ALLOC_HEADER_SIZE)) s'
                = Some (FENCEPOST, ALLOC_HEADER_SIZE, S - 2 * ALLOC_HEADER_SIZE) \<and>
              header_at (brk s + ALLOC_HEADER_SIZE) s'
                = Some (UNALLOCATED, S - 2 * ALLOC_HEADER_SIZE, ALLOC_HEADER_SIZE)"
proof -
  define b where "b = brk s"
  define h where "h = b + 16"
  define r where "r = b + (S - 16)"
  define m6 where
    "m6 = (mem s)(b := 18, b + 8 := 16, r := 18, r + 8 := S - 32, h := S - 32, h + 8 := 16)"
  define s6 where "s6 = s\<lparr>brk := b + S, mem := m6\<rparr>"
  have b': "unat b mod 8 = 0" "unat (heap_lo s) \<le> unat b" "unat b + unat S < 2 ^ 64"
    using b by (simp_all add: b_def)
  note u = chunk_unats [OF S(1) b'(3), folded h_def r_def]
  have run: "allocate_chunk S s = Inr (h, s6)"
    using allocate_chunk_state [OF S b] by (simp add: s6_def m6_def h_def r_def b_def)
  have md: "(unat b + 8) mod 8 = 0" "(unat b + 16) mod 8 = 0"
    "(unat b + 24) mod 8 = 0" "(unat b + unat S - 16) mod 8 = 0" "(unat b + unat S - 8) mod 8 = 0"
    "(unat S - 32) mod 8 = 0"
    using b' S by presburger+
  have mp: "mapped s6 b" "mapped s6 (b + 8)" "mapped s6 h" "mapped s6 (h + 8)"
    "mapped s6 r" "mapped s6 (r + 8)"
    using b' S md by (auto simp: mapped_def s6_def u)
  have ne: "r \<noteq> b" "r \<noteq> b + 8" "r \<noteq> h" "r \<noteq> h + 8" "r + 8 \<noteq> b" "r + 8 \<noteq> b + 8"
    "r + 8 \<noteq> h" "r + 8 \<noteq> h + 8" "h \<noteq> b" "h \<noteq> b + 8" "h + 8 \<noteq> b" "h + 8 \<noteq> b + 8"
    "b + 8 \<noteq> b" "h + 8 \<noteq> h" "r + 8 \<noteq> r"
    using S b' u by (auto simp: word_unat_eq_iff)
  have al32: "(S - 32) AND NOT 7 = S - 32"
    by (rule aligned_and_not7) (use S u(7) in presburger)
  have hb: "header_at b s6 = Some (FENCEPOST, 16, 16)"
    by (subst header_at_mapped [OF mp(1,2)]) (use ne in \<open>simp add: s6_def m6_def\<close>)
  have hr: "header_at r s6 = Some (FENCEPOST, 16, S - 32)"
    by (subst header_at_mapped [OF mp(5,6)]) (use ne in \<open>simp add: s6_def m6_def\<close>)
  have hh: "header_at h s6 = Some (UNALLOCATED, S - 32, 16)"
    by (subst header_at_mapped [OF mp(3,4)])
       (use ne al32 S u(7) md(6) in
          \<open>simp add: s6_def m6_def and7_eq_mod unat_eq_0 [symmetric]\<close>)
  show ?thesis
    using run hb hr hh by (auto simp: b_def h_def r_def)
qed

theorem allocate_chunk_layout_witness:
  "48 \<le> unat ARENA_SIZE \<and> unat ARENA_SIZE mod 8 = 0 \<and>
   unat (brk (boot 0x10000)) mod 8 = 0 \<and>
   unat (heap_lo (boot 0x10000)) \<le> unat (brk (boot 0x10000)) \<and>
   unat (brk (boot 0x10000)) + unat ARENA_SIZE < 2 ^ 64 \<and>
   (\<exists>s'. allocate_chunk ARENA_SIZE (boot 0x10000) = Inr (0x10010, s') \<and>
         header_at 0x10000 s' = Some (FENCEPOST, 16, 16) \<and>
         header_at 0x10FF0 s' = Some (FENCEPOST, 16, 4064) \<and>
         header_at 0x10010 s' = Some (UNALLOCATED, 4064, 16))"
  using allocate_chunk_layout [of ARENA_SIZE "boot 0x10000"]
  by (simp add: boot_def)

text \<open>
  C8. The claim: in every state reached by calls of \<^verbatim>\<open>malloc\<close> and \<^verbatim>\<open>free\<close> no two adjacent
  blocks are both UNALLOCATED. The code does otherwise: \<^verbatim>\<open>int size = raw_size\<close> cuts a
  request of \<open>2\<^sup>3\<^sup>2 + 8\<close> bytes to 8, the block made for it has 24 bytes, and when it is
  freed its \<^verbatim>\<open>prev\<close> link is written over the size word of the block to its right. In the
  run the freed block at \<open>0x10FB8\<close> and the block to its right at \<open>0x10FD0\<close>, which the
  caller still holds, are both UNALLOCATED.
\<close>

theorem huge_request_leaves_adjacent_free_blocks:
  "outcome run_huge_request = Returns (0x10FB8, UNALLOCATED, 0x10FD0, UNALLOCATED)"
  unfolding run_huge_request_def
  by (simp add: outcome_def run_defs eval_defs cong: congs)







end
